theory Spec2Isabelle
  imports Main
begin

section \<open>Values of the language\<close>

text \<open>
  The ids of \<^verbatim>\<open>server.js\<close> are JavaScript numbers. Every id the program ever stores is
  an integer (the seed ids, \<^verbatim>\<open>last.id + 1\<close>, or \<^verbatim>\<open>Number(req.params.id)\<close> after it
  compared equal to a stored id), so a number is modelled as an integer or \<^verbatim>\<open>NaN\<close>.
  Integer arithmetic is exact, as it is for JavaScript numbers up to \<^verbatim>\<open>2^53\<close>.
  A fractional or infinite number equals no integer and no \<^verbatim>\<open>NaN\<close>, which is how
  \<open>NaN\<close> behaves in every comparison below, so such results of a conversion are
  represented by \<open>NaN\<close>.
\<close>

datatype number = NaN | Num int

text \<open>\<^verbatim>\<open>a === b\<close> on numbers: \<^verbatim>\<open>NaN\<close> is equal to nothing, itself included.\<close>

fun strict_equals :: "number \<Rightarrow> number \<Rightarrow> bool" where
  "strict_equals (Num a) (Num b) = (a = b)"
| "strict_equals _ _ = False"

text \<open>\<^verbatim>\<open>a + b\<close> on numbers.\<close>

fun add :: "number \<Rightarrow> number \<Rightarrow> number" where
  "add (Num a) (Num b) = Num (a + b)"
| "add _ _ = NaN"

text \<open>The decimal digits of a natural number, and a number inside a template literal.\<close>

definition digit :: "nat \<Rightarrow> char" where
  "digit d = ''0123456789'' ! (d mod 10)"

fun digits :: "nat \<Rightarrow> string" where
  "digits n = (if n < 10 then [digit n] else digits (n div 10) @ [digit (n mod 10)])"

declare digits.simps [simp del]

fun number_to_string :: "number \<Rightarrow> string" where
  "number_to_string NaN = ''NaN''"
| "number_to_string (Num k) = (if k < 0 then CHR ''-'' # digits (nat (- k)) else digits (nat k))"

text \<open>
  What \<^verbatim>\<open>express.json()\<close> can put into a property of \<^verbatim>\<open>req.body\<close>: a JSON value, or
  \<^verbatim>\<open>undefined\<close> when the property is missing. The handlers never look inside.
\<close>

datatype jsvalue =
    Undefined
  | Null
  | Boolean bool
  | Number_value number
  | String string
  | Array "jsvalue list"
  | Object "(string \<times> jsvalue) list"

text \<open>\<^verbatim>\<open>req.body\<close> is an object; \<^verbatim>\<open>req.body.title\<close> is \<^verbatim>\<open>undefined\<close> for a missing property.\<close>

type_synonym body_object = "string \<rightharpoonup> jsvalue"

definition property :: "body_object \<Rightarrow> string \<Rightarrow> jsvalue" where
  "property body k = (case body k of None \<Rightarrow> Undefined | Some v \<Rightarrow> v)"

section \<open>The store\<close>

record book =
  book_id :: number
  title :: jsvalue
  author :: jsvalue

text \<open>The initial value of \<^verbatim>\<open>books\<close> (server.js, lines 20 to 23).\<close>

definition books :: "book list" where
  "books =
    [\<lparr>book_id = Num 1, title = String ''Book1'', author = String ''Author1''\<rparr>,
     \<lparr>book_id = Num 2, title = String ''Book2'', author = String ''Author2''\<rparr>]"

text \<open>\<^verbatim>\<open>Array.prototype.findIndex\<close>: the first index whose element passes, or \<open>-1\<close>.\<close>

fun findIndex :: "('a \<Rightarrow> bool) \<Rightarrow> 'a list \<Rightarrow> int" where
  "findIndex P [] = - 1"
| "findIndex P (x # xs) =
     (if P x then 0 else (let i = findIndex P xs in if i = - 1 then - 1 else i + 1))"

text \<open>\<^verbatim>\<open>xs.splice(index, 1)\<close> for an index inside the array: the element at it is removed.\<close>

definition splice1 :: "'a list \<Rightarrow> nat \<Rightarrow> 'a list" where
  "splice1 xs index = take index xs @ drop (index + 1) xs"

section \<open>Requests and responses\<close>

type_synonym links = "(string \<times> string) list"

datatype payload =
    Empty
  | Item book links
  | Collection "(book \<times> links) list" links
  | Text string

record response =
  status :: nat
  headers :: "(string \<times> string) list"
  body :: payload

text \<open>\<^verbatim>\<open>res.status(code).send()\<close> and \<^verbatim>\<open>res.json(...)\<close> with the default status 200.\<close>

definition send_empty :: "nat \<Rightarrow> response" where
  "send_empty code = \<lparr>status = code, headers = [], body = Empty\<rparr>"

definition json :: "nat \<Rightarrow> payload \<Rightarrow> response" where
  "json code p = \<lparr>status = code, headers = [], body = p\<rparr>"

section \<open>The handlers\<close>

text \<open>
  Each handler takes the current array and returns the array after it together with the
  response. \<^verbatim>\<open>Number\<close> is the built-in conversion of a string to a number; the handlers
  are modelled for an arbitrary conversion \<open>Number\<close>, so that whatever is proved holds
  for the built-in one.
\<close>

text \<open>\<^verbatim>\<open>app.get("/books")\<close>\<close>

definition get_books :: "book list \<Rightarrow> book list \<times> response" where
  "get_books bs =
     (let booksWithLinks = map (\<lambda>book. (book, [(''self'', ''/books/'' @ number_to_string (book_id book))])) bs
      in (bs, \<lparr>status = 200, headers = [(''Cache-Control'', ''public, max-age=60'')],
               body = Collection booksWithLinks [(''self'', ''/books'')]\<rparr>))"

text \<open>\<^verbatim>\<open>app.get("/books/:id")\<close>\<close>

definition get_book :: "(string \<Rightarrow> number) \<Rightarrow> book list \<Rightarrow> string \<Rightarrow> book list \<times> response" where
  "get_book Number bs params_id =
     (case find (\<lambda>b. strict_equals (book_id b) (Number params_id)) bs of
        None \<Rightarrow> (bs, send_empty 404)
      | Some book \<Rightarrow>
          (bs, json 200 (Item book
             [(''self'', ''/books/'' @ number_to_string (book_id book)), (''collection'', ''/books'')])))"

text \<open>\<^verbatim>\<open>app.post("/books")\<close>; \<open>newId\<close> is its local constant, as a function of the array.\<close>

definition newId :: "book list \<Rightarrow> number" where
  "newId bs = (if length bs \<noteq> 0 then add (book_id (bs ! (length bs - 1))) (Num 1) else Num 1)"

definition post_books :: "book list \<Rightarrow> body_object \<Rightarrow> book list \<times> response" where
  "post_books bs req_body =
     (let newBook = \<lparr>book_id = newId bs, title = property req_body ''title'',
                     author = property req_body ''author''\<rparr>
      in (bs @ [newBook],
          json 201 (Item newBook [(''self'', ''/books/'' @ number_to_string (newId bs))])))"

text \<open>\<^verbatim>\<open>app.put("/books/:id")\<close>\<close>

definition put_book ::
  "(string \<Rightarrow> number) \<Rightarrow> book list \<Rightarrow> string \<Rightarrow> body_object \<Rightarrow> book list \<times> response" where
  "put_book Number bs params_id req_body =
     (let index = findIndex (\<lambda>b. strict_equals (book_id b) (Number params_id)) bs
      in if index = - 1 then (bs, send_empty 404)
         else
           (let bs' = bs[nat index := \<lparr>book_id = Number params_id,
                                       title = property req_body ''title'',
                                       author = property req_body ''author''\<rparr>]
            in (bs', json 200 (Item (bs' ! nat index) [(''self'', ''/books/'' @ params_id)]))))"

text \<open>\<^verbatim>\<open>app.delete("/books/:id")\<close>\<close>

definition delete_book :: "(string \<Rightarrow> number) \<Rightarrow> book list \<Rightarrow> string \<Rightarrow> book list \<times> response" where
  "delete_book Number bs params_id =
     (let index = findIndex (\<lambda>b. strict_equals (book_id b) (Number params_id)) bs
      in if index = - 1 then (bs, send_empty 404)
         else (splice1 bs (nat index), send_empty 204))"

text \<open>\<^verbatim>\<open>app.get("/script")\<close>\<close>

definition get_script :: "book list \<Rightarrow> book list \<times> response" where
  "get_script bs =
     (bs, \<lparr>status = 200, headers = [(''Content-Type'', ''application/javascript'')],
           body = Text ''console.log(\"Hello from code on demand!\")''\<rparr>)"

text \<open>The routes of the application, and a run of it over a sequence of requests.\<close>

datatype request =
    GET_books
  | GET_book string
  | POST_books body_object
  | PUT_book string body_object
  | DELETE_book string
  | GET_script

fun app :: "(string \<Rightarrow> number) \<Rightarrow> book list \<Rightarrow> request \<Rightarrow> book list \<times> response" where
  "app Number bs GET_books = get_books bs"
| "app Number bs (GET_book i) = get_book Number bs i"
| "app Number bs (POST_books b) = post_books bs b"
| "app Number bs (PUT_book i b) = put_book Number bs i b"
| "app Number bs (DELETE_book i) = delete_book Number bs i"
| "app Number bs GET_script = get_script bs"

fun run :: "(string \<Rightarrow> number) \<Rightarrow> book list \<Rightarrow> request list \<Rightarrow> book list" where
  "run Number bs [] = bs"
| "run Number bs (r # rs) = run Number (fst (app Number bs r)) rs"

text \<open>
  A conversion to run the handlers on examples. On a string of decimal digits it is the
  built-in \<^verbatim>\<open>Number\<close> (the empty string is 0), and so it is on a string that is no
  numeric literal at all, such as \<^verbatim>\<open>"abc"\<close>, which the built-in sends to \<^verbatim>\<open>NaN\<close>.
  The other numeric literals of the language (a sign, a fraction, an exponent, a radix
  prefix, white space around the digits) are not read by it, and no example uses one.
\<close>

definition digit_value :: "char \<Rightarrow> nat" where
  "digit_value c = of_char c - 48"

definition is_digit :: "char \<Rightarrow> bool" where
  "is_digit c = (48 \<le> (of_char c :: nat) \<and> (of_char c :: nat) \<le> 57)"

definition decimal_Number :: "string \<Rightarrow> number" where
  "decimal_Number s =
     (if list_all is_digit s then Num (int (foldl (\<lambda>n c. 10 * n + digit_value c) 0 s)) else NaN)"

section \<open>Notions of the specification\<close>

text \<open>\<^verbatim>\<open>a < b\<close> and \<^verbatim>\<open>Math.max(a, b)\<close> on numbers.\<close>

fun less_than :: "number \<Rightarrow> number \<Rightarrow> bool" where
  "less_than (Num a) (Num b) = (a < b)"
| "less_than _ _ = False"

fun max_number :: "number \<Rightarrow> number \<Rightarrow> number" where
  "max_number (Num a) (Num b) = Num (max a b)"
| "max_number _ _ = NaN"

text \<open>
  The id the specification gives to a new record: the maximum of the existing ids plus 1,
  or 1 if the collection is empty.
\<close>

definition spec_new_id :: "book list \<Rightarrow> number" where
  "spec_new_id bs =
     (case map book_id bs of [] \<Rightarrow> Num 1 | i # is \<Rightarrow> add (foldl max_number i is) (Num 1))"

text \<open>The invariant of the store: the ids are numbers in strictly ascending order.\<close>

definition ascending :: "number list \<Rightarrow> bool" where
  "ascending ns = (sorted_wrt less_than ns \<and> NaN \<notin> set ns)"

section \<open>Arrays: \<open>findIndex\<close>, \<open>find\<close> and \<open>splice\<close>\<close>

lemma strict_equals_iff: "strict_equals a b \<longleftrightarrow> a = b \<and> a \<noteq> NaN"
  by (cases a; cases b) auto

lemma findIndex_ge: "- 1 \<le> findIndex P xs"
  by (induction xs) (auto simp: Let_def)

lemma findIndex_none: "findIndex P xs = - 1 \<longleftrightarrow> (\<forall>x\<in>set xs. \<not> P x)"
proof (induction xs)
  case Nil
  then show ?case by simp
next
  case (Cons x xs)
  have "findIndex P xs + 1 \<noteq> - 1" using findIndex_ge [of P xs] by arith
  with Cons show ?case by (auto simp: Let_def)
qed

lemma findIndex_some:
  assumes "findIndex P xs \<noteq> - 1"
  shows "0 \<le> findIndex P xs \<and> nat (findIndex P xs) < length xs \<and> P (xs ! nat (findIndex P xs))
         \<and> (\<forall>j < nat (findIndex P xs). \<not> P (xs ! j))"
  using assms
proof (induction xs)
  case Nil
  then show ?case by simp
next
  case (Cons x xs)
  show ?case
  proof (cases "P x")
    case True
    then show ?thesis by simp
  next
    case False
    with Cons.prems have ne: "findIndex P xs \<noteq> - 1" by (auto simp: Let_def)
    from Cons.IH [OF ne] have ih: "0 \<le> findIndex P xs" "nat (findIndex P xs) < length xs"
      "P (xs ! nat (findIndex P xs))" "\<forall>j < nat (findIndex P xs). \<not> P (xs ! j)" by auto
    have eq: "findIndex P (x # xs) = findIndex P xs + 1" using False ne by (simp add: Let_def)
    have n: "nat (findIndex P xs + 1) = Suc (nat (findIndex P xs))" using ih(1) by simp
    show ?thesis unfolding eq n using ih False
      by (auto simp: nth_Cons split: nat.splits) 
  qed
qed

lemma find_findIndex:
  "find P xs = (if findIndex P xs = - 1 then None else Some (xs ! nat (findIndex P xs)))"
proof (induction xs)
  case Nil
  then show ?case by simp
next
  case (Cons x xs)
  show ?case
  proof (cases "P x")
    case True
    then show ?thesis by simp
  next
    case False
    show ?thesis
    proof (cases "findIndex P xs = - 1")
      case True
      with False Cons show ?thesis by (simp add: Let_def)
    next
      case ne: False
      from findIndex_some [OF ne] have "0 \<le> findIndex P xs" by simp
      then have n: "nat (findIndex P xs + 1) = Suc (nat (findIndex P xs))" by simp
      from ne \<open>0 \<le> findIndex P xs\<close> have "findIndex P xs + 1 \<noteq> - 1" by simp
      with False ne Cons n show ?thesis by (simp add: Let_def)
    qed
  qed
qed

section \<open>The ids stay in ascending order\<close>

lemma less_than_iff: "less_than a b \<longleftrightarrow> (\<exists>x y. a = Num x \<and> b = Num y \<and> x < y)"
  by (cases a; cases b) auto

lemma ascending_Nil: "ascending []"
  by (simp add: ascending_def)

lemma ascending_single: "ascending [Num k]"
  by (simp add: ascending_def)

lemma ascending_Cons:
  "ascending (n # ns) \<longleftrightarrow> n \<noteq> NaN \<and> (\<forall>m\<in>set ns. less_than n m) \<and> ascending ns"
  by (auto simp: ascending_def)

lemma ascending_below_last:
  "ascending ns \<Longrightarrow> n \<in> set ns \<Longrightarrow> less_than n (add (last ns) (Num 1))"
proof (induction ns)
  case Nil
  then show ?case by simp
next
  case (Cons m ns)
  show ?case
  proof (cases "ns = []")
    case True
    with Cons.prems show ?thesis by (cases m) (auto simp: ascending_def)
  next
    case False
    then have l: "last ns \<in> set ns" by simp
    from Cons.prems have asc: "ascending ns" and lt: "\<forall>k\<in>set ns. less_than m k"
      by (simp_all add: ascending_Cons)
    show ?thesis
    proof (cases "n = m")
      case True
      from lt l have "less_than m (last ns)" by blast
      then show ?thesis using True False by (auto simp: less_than_iff)
    next
      case ne: False
      with Cons.prems have "n \<in> set ns" by simp
      from Cons.IH [OF asc this] show ?thesis using False by simp
    qed
  qed
qed

lemma ascending_snoc:
  assumes "ascending ns" "ns \<noteq> []"
  shows "ascending (ns @ [add (last ns) (Num 1)])"
proof -
  from assms have "last ns \<in> set ns" by simp
  with assms(1) have "last ns \<noteq> NaN" by (auto simp: ascending_def)
  then have "add (last ns) (Num 1) \<noteq> NaN" by (cases "last ns") auto
  with assms ascending_below_last [OF assms(1)] show ?thesis
    by (auto simp: ascending_def sorted_wrt_append)
qed

lemma sorted_wrt_splice1:
  assumes "sorted_wrt P xs"
  shows "sorted_wrt P (splice1 xs i)"
proof -
  have "sorted_wrt P (take i xs @ drop i xs)" using assms by simp
  then have cross: "\<forall>x\<in>set (take i xs). \<forall>y\<in>set (drop i xs). P x y"
    unfolding sorted_wrt_append by blast
  have sub: "set (drop (i + 1) xs) \<subseteq> set (drop i xs)"
    by (simp add: set_drop_subset_set_drop)
  have "sorted_wrt P (take i xs)" "sorted_wrt P (drop (i + 1) xs)"
    using assms by (simp_all add: sorted_wrt_take sorted_wrt_drop)
  with cross sub show ?thesis
    unfolding splice1_def sorted_wrt_append by blast
qed

lemma set_splice1: "set (splice1 xs i) \<subseteq> set xs"
  unfolding splice1_def by (auto dest: in_set_takeD in_set_dropD)

lemma ascending_splice1: "ascending ns \<Longrightarrow> ascending (splice1 ns i)"
  unfolding ascending_def using sorted_wrt_splice1 [of less_than ns i] set_splice1 [of ns i]
  by blast

lemma ascending_distinct: "ascending ns \<Longrightarrow> distinct ns"
  by (induction ns) (auto simp: ascending_Cons less_than_iff)

lemma ascending_max: "ascending (i # is) \<Longrightarrow> foldl max_number i is = last (i # is)"
proof (induction "is" arbitrary: i)
  case Nil
  then show ?case by simp
next
  case (Cons j js)
  from Cons.prems have "less_than i j" and asc: "ascending (j # js)"
    by (simp_all add: ascending_Cons)
  then have "max_number i j = j" by (auto simp: less_than_iff)
  with Cons.IH [OF asc] show ?case by simp
qed

lemma newId_eq: "newId bs = (if bs = [] then Num 1 else add (book_id (last bs)) (Num 1))"
  by (simp add: newId_def last_conv_nth)

lemma post_books_eq:
  "post_books bs b =
     (bs @ [\<lparr>book_id = newId bs, title = property b ''title'', author = property b ''author''\<rparr>],
      \<lparr>status = 201, headers = [],
       body = Item \<lparr>book_id = newId bs, title = property b ''title'', author = property b ''author''\<rparr>
                [(''self'', ''/books/'' @ number_to_string (newId bs))]\<rparr>)"
  by (simp add: post_books_def Let_def json_def)

lemma ids_post:
  "map book_id (fst (post_books bs b)) =
     map book_id bs @ [if bs = [] then Num 1 else add (last (map book_id bs)) (Num 1)]"
  by (simp add: post_books_eq newId_eq last_map)

lemma ids_put: "map book_id (fst (put_book Number bs i b)) = map book_id bs"
proof (cases "findIndex (\<lambda>b. strict_equals (book_id b) (Number i)) bs = - 1")
  case True
  then show ?thesis by (simp add: put_book_def)
next
  case False
  from findIndex_some [OF False]
  have lt: "nat (findIndex (\<lambda>b. strict_equals (book_id b) (Number i)) bs) < length bs"
    and eq: "strict_equals (book_id (bs ! nat (findIndex (\<lambda>b. strict_equals (book_id b) (Number i)) bs))) (Number i)"
    by simp_all
  from eq have "book_id (bs ! nat (findIndex (\<lambda>b. strict_equals (book_id b) (Number i)) bs)) = Number i"
    by (simp add: strict_equals_iff)
  with False lt show ?thesis
    by (simp add: put_book_def Let_def map_update) (metis list_update_id length_map nth_map)
qed

lemma ids_delete:
  "map book_id (fst (delete_book Number bs i)) = map book_id bs \<or>
   (\<exists>n. map book_id (fst (delete_book Number bs i)) = splice1 (map book_id bs) n)"
  by (auto simp: delete_book_def Let_def splice1_def take_map drop_map)

lemma ascending_app:
  assumes "ascending (map book_id bs)"
  shows "ascending (map book_id (fst (app Number bs r)))"
proof (cases r)
  case GET_books
  with assms show ?thesis by (simp add: get_books_def Let_def)
next
  case (GET_book i)
  with assms show ?thesis by (simp add: get_book_def split: option.splits)
next
  case (POST_books b)
  show ?thesis
  proof (cases "bs = []")
    case True
    with POST_books show ?thesis by (simp add: ids_post ascending_single)
  next
    case False
    with assms POST_books ascending_snoc [of "map book_id bs"] show ?thesis
      by (simp add: ids_post)
  qed
next
  case (PUT_book i b)
  with assms show ?thesis by (simp add: ids_put)
next
  case (DELETE_book i)
  with assms ids_delete [of Number bs i] show ?thesis
    by (auto simp: ascending_splice1)
next
  case GET_script
  with assms show ?thesis by (simp add: get_script_def)
qed

lemma ascending_run:
  "ascending (map book_id bs) \<Longrightarrow> ascending (map book_id (run Number bs rs))"
  by (induction rs arbitrary: bs) (simp_all add: ascending_app)

lemma ascending_books: "ascending (map book_id books)"
  by (simp add: books_def ascending_def)

lemma run_append: "run Number bs (rs @ rs') = run Number (run Number bs rs) rs'"
  by (induction rs arbitrary: bs) simp_all

section \<open>Creating records\<close>

lemma foldl_max_number_Max:
  "foldl max_number (Num k) (map Num ks) = Num (Max (set (k # ks)))"
proof (induction ks arbitrary: k)
  case Nil
  then show ?case by simp
next
  case (Cons j js)
  have "Max (insert k (insert j (set js))) = Max (insert (max k j) (set js))"
    by (cases "js = []") (simp_all add: max.assoc)
  with Cons [of "max k j"] show ?case by simp
qed

text \<open>The fold of \<open>spec_new_id\<close> is the maximum of the ids.\<close>

lemma spec_new_id_Max:
  "map book_id bs = map Num (k # ks) \<Longrightarrow> spec_new_id bs = Num (Max (set (k # ks)) + 1)"
  using foldl_max_number_Max [of k ks] by (simp add: spec_new_id_def)

lemma spec_new_id_ascending:
  assumes "ascending (map book_id bs)"
  shows "spec_new_id bs = newId bs"
proof (cases bs)
  case Nil
  then show ?thesis by (simp add: spec_new_id_def newId_eq)
next
  case (Cons c cs)
  with assms have "ascending (book_id c # map book_id cs)" by simp
  from ascending_max [OF this] Cons show ?thesis
    by (simp add: spec_new_id_def newId_eq last_map)
qed

lemma newId_post: "newId bs = Num k \<Longrightarrow> newId (fst (post_books bs b)) = Num (k + 1)"
  by (simp add: post_books_eq newId_eq)

lemma creates_newId:
  "newId bs = Num k \<Longrightarrow> newId (run Number bs (map POST_books bodies)) = Num (k + int (length bodies))"
proof (induction bodies arbitrary: bs k)
  case Nil
  then show ?case by simp
next
  case (Cons b bodies)
  from Cons.IH [OF newId_post [OF Cons.prems]] show ?case
    by (simp add: add.assoc add.commute)
qed

text \<open>
  Claim C1. In every state of the store and for every request body (whatever its title and
  author are, empty strings and missing properties included), \<^verbatim>\<open>POST /books\<close> builds a
  record whose id is 1 when the array is empty and the last record's id plus 1 otherwise,
  appends it at the end of the array and answers 201 with that record and the link
  \<^verbatim>\<open>/books/{id}\<close>.
\<close>

theorem create_appends_next_id:
  "app Number bs (POST_books req_body) =
     (bs @ [\<lparr>book_id = (if bs = [] then Num 1 else add (book_id (last bs)) (Num 1)),
             title = property req_body ''title'', author = property req_body ''author''\<rparr>],
      \<lparr>status = 201, headers = [],
       body = Item \<lparr>book_id = (if bs = [] then Num 1 else add (book_id (last bs)) (Num 1)),
                    title = property req_body ''title'', author = property req_body ''author''\<rparr>
                [(''self'', ''/books/'' @
                   number_to_string (if bs = [] then Num 1 else add (book_id (last bs)) (Num 1)))]\<rparr>)"
  by (simp add: post_books_eq newId_eq)

text \<open>
  Claim C2. In every state reached from the initial array by any sequence of requests, the
  id that \<^verbatim>\<open>POST /books\<close> assigns is the one of the specification: the maximum of the
  existing ids plus 1, or 1 if the array is empty.
\<close>

theorem create_assigns_max_plus_one:
  "app Number (run Number books rs) (POST_books req_body) =
     (run Number books rs @
        [\<lparr>book_id = spec_new_id (run Number books rs),
          title = property req_body ''title'', author = property req_body ''author''\<rparr>],
      \<lparr>status = 201, headers = [],
       body = Item \<lparr>book_id = spec_new_id (run Number books rs),
                    title = property req_body ''title'', author = property req_body ''author''\<rparr>
                [(''self'', ''/books/'' @ number_to_string (spec_new_id (run Number books rs)))]\<rparr>)"
proof -
  have "ascending (map book_id (run Number books rs))"
    by (rule ascending_run [OF ascending_books])
  from spec_new_id_ascending [OF this] show ?thesis
    by (simp add: post_books_eq)
qed

text \<open>
  Claim C3. In every state reached from the initial array by any sequence of requests, no
  two records have the same id (and every id is a number, so that equality of ids is
  \<^verbatim>\<open>===\<close>).
\<close>

theorem ids_unique_in_reachable_states:
  "distinct (map book_id (run Number books rs)) \<and> NaN \<notin> set (map book_id (run Number books rs))"
proof -
  have asc: "ascending (map book_id (run Number books rs))"
    by (rule ascending_run [OF ascending_books])
  from ascending_distinct [OF asc] asc show ?thesis
    unfolding ascending_def by blast
qed

text \<open>
  Claim C5, as the program has it. The program starts with two records, with ids 1 and 2:
  the first record created after the start gets id 3, not 1.
\<close>

theorem first_create_on_seed_counterexample:
  "app decimal_Number books
       (POST_books [''title'' \<mapsto> String ''Book3'', ''author'' \<mapsto> String ''Author3'']) =
     (books @ [\<lparr>book_id = Num 3, title = String ''Book3'', author = String ''Author3''\<rparr>],
      \<lparr>status = 201, headers = [],
       body = Item \<lparr>book_id = Num 3, title = String ''Book3'', author = String ''Author3''\<rparr>
                [(''self'', ''/books/3'')]\<rparr>)"
  by (simp add: post_books_def newId_def Let_def books_def json_def property_def
      digits.simps digit_def)

text \<open>
  Claim C5, amended. After any number of \<^verbatim>\<open>POST /books\<close> requests and nothing else, the
  next record created (the n-th, after n - 1 of them) gets id n when the run started from
  the empty array, and id n + 2 when it started from the initial array of the program.
\<close>

theorem nth_create_id:
  "snd (app Number (run Number [] (map POST_books bodies)) (POST_books req_body)) =
     \<lparr>status = 201, headers = [],
      body = Item \<lparr>book_id = Num (int (length bodies) + 1),
                   title = property req_body ''title'', author = property req_body ''author''\<rparr>
               [(''self'', ''/books/'' @ number_to_string (Num (int (length bodies) + 1)))]\<rparr>
   \<and> snd (app Number (run Number books (map POST_books bodies)) (POST_books req_body)) =
     \<lparr>status = 201, headers = [],
      body = Item \<lparr>book_id = Num (int (length bodies) + 3),
                   title = property req_body ''title'', author = property req_body ''author''\<rparr>
               [(''self'', ''/books/'' @ number_to_string (Num (int (length bodies) + 3)))]\<rparr>"
proof -
  have e: "newId [] = Num 1"
    by (simp add: newId_def)
  have s: "newId books = Num 3"
    by (simp add: newId_def books_def)
  from creates_newId [OF e, of Number bodies] creates_newId [OF s, of Number bodies]
  show ?thesis
    by (simp add: post_books_eq add.commute)
qed

section \<open>Updating and deleting records\<close>

lemma get_book_eq:
  "get_book Number bs i =
     (let index = findIndex (\<lambda>b. strict_equals (book_id b) (Number i)) bs
      in if index = - 1 then (bs, send_empty 404)
         else (bs, json 200 (Item (bs ! nat index)
                 [(''self'', ''/books/'' @ number_to_string (book_id (bs ! nat index))),
                  (''collection'', ''/books'')])))"
  by (simp add: get_book_def find_findIndex Let_def)

lemma findIndex_first:
  assumes "n < length xs" "P (xs ! n)" "\<forall>j<n. \<not> P (xs ! j)"
  shows "findIndex P xs = int n"
proof -
  have ne: "findIndex P xs \<noteq> - 1"
    using assms(1,2) by (auto simp: findIndex_none)
  from findIndex_some [OF ne] have s: "0 \<le> findIndex P xs" "P (xs ! nat (findIndex P xs))"
    "\<forall>j < nat (findIndex P xs). \<not> P (xs ! j)" by simp_all
  from s(2) assms(3) have "\<not> nat (findIndex P xs) < n" by blast
  moreover from s(3) assms(2) have "\<not> n < nat (findIndex P xs)" by blast
  ultimately have "nat (findIndex P xs) = n" by arith
  with s(1) show ?thesis by simp
qed

text \<open>
  Claim C6. When some record's id equals the number of the path id, \<^verbatim>\<open>PUT /books/:id\<close>
  replaces the first such record, at its position \<open>n\<close>, by the record made of the path id
  (the same number as the old id; an \<^verbatim>\<open>id\<close> property of the body is never read) and the
  title and author of the body, leaves the rest of the array as it is, and answers 200 with
  the new record; \<^verbatim>\<open>GET /books/:id\<close> with the same path id then answers 200 with that
  record.
\<close>

theorem update_replaces_record:
  assumes "\<exists>b\<in>set bs. strict_equals (book_id b) (Number i)"
  shows "\<exists>n<length bs.
           book_id (bs ! n) = Number i
         \<and> (\<forall>j<n. \<not> strict_equals (book_id (bs ! j)) (Number i))
         \<and> app Number bs (PUT_book i req_body) =
             (bs[n := \<lparr>book_id = Number i, title = property req_body ''title'',
                        author = property req_body ''author''\<rparr>],
              \<lparr>status = 200, headers = [],
               body = Item \<lparr>book_id = Number i, title = property req_body ''title'',
                            author = property req_body ''author''\<rparr>
                        [(''self'', ''/books/'' @ i)]\<rparr>)
         \<and> app Number (fst (app Number bs (PUT_book i req_body))) (GET_book i) =
             (fst (app Number bs (PUT_book i req_body)),
              \<lparr>status = 200, headers = [],
               body = Item \<lparr>book_id = Number i, title = property req_body ''title'',
                            author = property req_body ''author''\<rparr>
                        [(''self'', ''/books/'' @ number_to_string (Number i)),
                         (''collection'', ''/books'')]\<rparr>)"
proof -
  let ?P = "\<lambda>b. strict_equals (book_id b) (Number i)"
  let ?nb = "\<lparr>book_id = Number i, title = property req_body ''title'',
              author = property req_body ''author''\<rparr>"
  from assms have ne: "findIndex ?P bs \<noteq> - 1" by (simp add: findIndex_none)
  define n where "n = nat (findIndex ?P bs)"
  from findIndex_some [OF ne] have n: "0 \<le> findIndex ?P bs" "n < length bs" "?P (bs ! n)"
    "\<forall>j<n. \<not> ?P (bs ! j)" unfolding n_def by simp_all
  from n(3) have id: "book_id (bs ! n) = Number i" and num: "Number i \<noteq> NaN"
    by (auto simp: strict_equals_iff)
  have f: "find ?P bs = Some (bs ! n)" using ne by (simp add: find_findIndex n_def)
  have put: "put_book Number bs i req_body = (bs[n := ?nb], json 200 (Item ?nb [(''self'', ''/books/'' @ i)]))"
    using ne n(2) by (simp add: put_book_def Let_def n_def [symmetric])
  have P': "?P (bs[n := ?nb] ! n)" using n(2) num by (simp add: strict_equals_iff)
  have "\<forall>j<n. \<not> ?P (bs[n := ?nb] ! j)" using n(4) by simp
  with P' n(2) have fi: "findIndex ?P (bs[n := ?nb]) = int n"
    by (intro findIndex_first) simp_all
  have get: "get_book Number (bs[n := ?nb]) i =
     (bs[n := ?nb], json 200 (Item ?nb [(''self'', ''/books/'' @ number_to_string (Number i)),
                  (''collection'', ''/books'')]))"
    using n(2) by (simp add: get_book_eq fi Let_def)
  from n(2) n(4) id put get show ?thesis
    by (auto simp: json_def)
qed

text \<open>
  Claim C6 at the initial array, with the path id \<^verbatim>\<open>1\<close> and a body that carries an id 7.
\<close>

theorem update_replaces_record_witness:
  "(\<exists>b\<in>set books. strict_equals (book_id b) (decimal_Number ''1''))
   \<and> app decimal_Number books
        (PUT_book ''1'' [''id'' \<mapsto> Number_value (Num 7), ''title'' \<mapsto> String ''X'',
                         ''author'' \<mapsto> String ''Y'']) =
       ([\<lparr>book_id = Num 1, title = String ''X'', author = String ''Y''\<rparr>,
         \<lparr>book_id = Num 2, title = String ''Book2'', author = String ''Author2''\<rparr>],
        \<lparr>status = 200, headers = [],
         body = Item \<lparr>book_id = Num 1, title = String ''X'', author = String ''Y''\<rparr>
                  [(''self'', ''/books/1'')]\<rparr>)
   \<and> app decimal_Number
        [\<lparr>book_id = Num 1, title = String ''X'', author = String ''Y''\<rparr>,
         \<lparr>book_id = Num 2, title = String ''Book2'', author = String ''Author2''\<rparr>]
        (GET_book ''1'') =
       ([\<lparr>book_id = Num 1, title = String ''X'', author = String ''Y''\<rparr>,
         \<lparr>book_id = Num 2, title = String ''Book2'', author = String ''Author2''\<rparr>],
        \<lparr>status = 200, headers = [],
         body = Item \<lparr>book_id = Num 1, title = String ''X'', author = String ''Y''\<rparr>
                  [(''self'', ''/books/1''), (''collection'', ''/books'')]\<rparr>)"
proof -
  have n1: "decimal_Number ''1'' = Num 1"
    by (simp add: decimal_Number_def is_digit_def digit_value_def)
  have h: "\<exists>b\<in>set books. strict_equals (book_id b) (decimal_Number ''1'')"
    by (simp add: books_def n1)
  from h update_replaces_record [where Number = decimal_Number and bs = books and i = "''1''", OF h]
  show ?thesis
    by (simp add: n1 books_def put_book_def get_book_def Let_def json_def property_def
        digits.simps digit_def)
qed

lemma splice1_distinct_filter:
  "distinct (map f xs) \<Longrightarrow> n < length xs \<Longrightarrow> splice1 xs n = filter (\<lambda>x. f x \<noteq> f (xs ! n)) xs"
proof (induction xs arbitrary: n)
  case Nil
  then show ?case by simp
next
  case (Cons x xs)
  show ?case
  proof (cases n)
    case 0
    from Cons.prems have "f x \<notin> f ` set xs" by simp
    then have "\<forall>y\<in>set xs. f y \<noteq> f x" by (metis imageI)
    then have "filter (\<lambda>y. f y \<noteq> f x) xs = xs" by (simp add: filter_id_conv)
    with 0 show ?thesis by (simp add: splice1_def)
  next
    case (Suc m)
    with Cons.prems have m: "m < length xs" and d: "distinct (map f xs)" by simp_all
    from m have "xs ! m \<in> set xs" by simp
    moreover from Cons.prems have "f x \<notin> f ` set xs" by simp
    ultimately have "f x \<noteq> f (xs ! m)" by (metis imageI)
    with Cons.IH [OF d m] Suc show ?thesis by (simp add: splice1_def)
  qed
qed

text \<open>
  Claim C7. When some record's id equals the number of the path id,
  \<^verbatim>\<open>DELETE /books/:id\<close> removes the first such record, at its position \<open>n\<close>, and keeps
  the records before and after it as they are and in their order, answering 204 with no
  body; when the ids of the array are distinct, what remains is exactly the records with
  another id.
\<close>

theorem delete_removes_only_that_record:
  assumes "\<exists>b\<in>set bs. strict_equals (book_id b) (Number i)"
  shows "\<exists>n<length bs.
           book_id (bs ! n) = Number i
         \<and> (\<forall>j<n. \<not> strict_equals (book_id (bs ! j)) (Number i))
         \<and> app Number bs (DELETE_book i) =
             (take n bs @ drop (Suc n) bs, \<lparr>status = 204, headers = [], body = Empty\<rparr>)
         \<and> (distinct (map book_id bs) \<longrightarrow>
              fst (app Number bs (DELETE_book i)) = filter (\<lambda>b. book_id b \<noteq> Number i) bs)"
proof -
  let ?P = "\<lambda>b. strict_equals (book_id b) (Number i)"
  from assms have ne: "findIndex ?P bs \<noteq> - 1" by (simp add: findIndex_none)
  define n where "n = nat (findIndex ?P bs)"
  from findIndex_some [OF ne] have n: "n < length bs" "?P (bs ! n)" "\<forall>j<n. \<not> ?P (bs ! j)"
    unfolding n_def by simp_all
  from n(2) have id: "book_id (bs ! n) = Number i"
    by (simp add: strict_equals_iff)
  have del: "delete_book Number bs i = (splice1 bs n, send_empty 204)"
    using ne by (simp add: delete_book_def Let_def n_def)
  have "distinct (map book_id bs) \<longrightarrow> splice1 bs n = filter (\<lambda>b. book_id b \<noteq> Number i) bs"
    using splice1_distinct_filter [of book_id bs n] n(1) id by simp
  with n id del show ?thesis
    by (auto simp: splice1_def send_empty_def)
qed

text \<open>Claim C7 at the initial array, with the path id \<^verbatim>\<open>1\<close>.\<close>

theorem delete_removes_only_that_record_witness:
  "(\<exists>b\<in>set books. strict_equals (book_id b) (decimal_Number ''1''))
   \<and> app decimal_Number books (DELETE_book ''1'') =
       ([\<lparr>book_id = Num 2, title = String ''Book2'', author = String ''Author2''\<rparr>],
        \<lparr>status = 204, headers = [], body = Empty\<rparr>)
   \<and> distinct (map book_id books)
   \<and> filter (\<lambda>b. book_id b \<noteq> decimal_Number ''1'') books =
       [\<lparr>book_id = Num 2, title = String ''Book2'', author = String ''Author2''\<rparr>]"
proof -
  have n1: "decimal_Number ''1'' = Num 1"
    by (simp add: decimal_Number_def is_digit_def digit_value_def)
  have h: "\<exists>b\<in>set books. strict_equals (book_id b) (decimal_Number ''1'')"
    by (simp add: books_def n1)
  from h delete_removes_only_that_record [where Number = decimal_Number and bs = books and i = "''1''", OF h]
  show ?thesis
    by (simp add: n1 books_def delete_book_def Let_def send_empty_def splice1_def)
qed

section \<open>Not found\<close>

lemma status_get_book:
  "status (snd (get_book Number bs i)) = 404 \<longleftrightarrow> \<not> (\<exists>b\<in>set bs. strict_equals (book_id b) (Number i))"
  by (simp add: get_book_eq Let_def findIndex_none send_empty_def json_def)

lemma status_put_book:
  "status (snd (put_book Number bs i b)) = 404 \<longleftrightarrow> \<not> (\<exists>b\<in>set bs. strict_equals (book_id b) (Number i))"
  by (simp add: put_book_def Let_def findIndex_none send_empty_def json_def)

lemma status_delete_book:
  "status (snd (delete_book Number bs i)) = 404 \<longleftrightarrow> \<not> (\<exists>b\<in>set bs. strict_equals (book_id b) (Number i))"
  by (simp add: delete_book_def Let_def findIndex_none send_empty_def)

lemma not_found_response:
  "status (snd (app Number bs r)) = 404 \<Longrightarrow>
     app Number bs r = (bs, \<lparr>status = 404, headers = [], body = Empty\<rparr>)
     \<and> (\<exists>i. r = GET_book i \<or> (\<exists>b. r = PUT_book i b) \<or> r = DELETE_book i)"
  by (cases r)
    (simp_all add: get_books_def get_book_eq post_books_eq put_book_def delete_book_def
      get_script_def Let_def send_empty_def json_def split: if_splits)

lemma status_values: "status (snd (app Number bs r)) \<in> {200, 201, 204, 404}"
  by (cases r)
    (simp_all add: get_books_def get_book_eq post_books_eq put_book_def delete_book_def
      get_script_def Let_def send_empty_def json_def)

text \<open>
  Claim C8. In every state and for every path id, each of \<^verbatim>\<open>GET\<close>, \<^verbatim>\<open>PUT\<close> and
  \<^verbatim>\<open>DELETE /books/:id\<close> answers 404 exactly when no record's id equals the number of
  the path id; a response with status 404 has no body and no header of the handler's, and
  comes from one of these three routes only; every status a handler gives is 200, 201, 204
  or 404.
\<close>

theorem not_found_is_the_only_error:
  "(status (snd (app Number bs (GET_book i))) = 404
      \<longleftrightarrow> \<not> (\<exists>b\<in>set bs. strict_equals (book_id b) (Number i)))
   \<and> (status (snd (app Number bs (PUT_book i req_body))) = 404
      \<longleftrightarrow> \<not> (\<exists>b\<in>set bs. strict_equals (book_id b) (Number i)))
   \<and> (status (snd (app Number bs (DELETE_book i))) = 404
      \<longleftrightarrow> \<not> (\<exists>b\<in>set bs. strict_equals (book_id b) (Number i)))
   \<and> (status (snd (app Number bs r)) = 404 \<longrightarrow>
        snd (app Number bs r) = \<lparr>status = 404, headers = [], body = Empty\<rparr>
        \<and> (\<exists>j. r = GET_book j \<or> (\<exists>b. r = PUT_book j b) \<or> r = DELETE_book j))
   \<and> status (snd (app Number bs r)) \<in> {200, 201, 204, 404}"
  using not_found_response [of Number bs r] status_values [of Number bs r]
  by (auto simp: status_get_book status_put_book status_delete_book)

text \<open>Claim C8 at the initial array: the path id \<^verbatim>\<open>999\<close> is not found, \<^verbatim>\<open>2\<close> is.\<close>

theorem not_found_is_the_only_error_witness:
  "status (snd (app decimal_Number books (GET_book ''999''))) = 404
   \<and> \<not> (\<exists>b\<in>set books. strict_equals (book_id b) (decimal_Number ''999''))
   \<and> snd (app decimal_Number books (GET_book ''999'')) = \<lparr>status = 404, headers = [], body = Empty\<rparr>
   \<and> status (snd (app decimal_Number books (GET_book ''2''))) = 200"
proof -
  have n: "decimal_Number ''999'' = Num 999" "decimal_Number ''2'' = Num 2"
    by (simp_all add: decimal_Number_def is_digit_def digit_value_def)
  from not_found_is_the_only_error [of decimal_Number books "''999''" _ "GET_book ''999''"]
  show ?thesis
    by (simp add: n books_def get_book_def send_empty_def json_def)
qed

text \<open>
  Claim C9. In every state, when the path id does not convert to a number (the conversion
  gives \<^verbatim>\<open>NaN\<close>), \<^verbatim>\<open>GET\<close>, \<^verbatim>\<open>PUT\<close> and \<^verbatim>\<open>DELETE /books/:id\<close> give the answer of
  a path id that matches no record: 404 with no body, the array as it was.
\<close>

theorem unparsable_id_is_not_found:
  assumes "Number i = NaN"
  shows "app Number bs (GET_book i) = (bs, \<lparr>status = 404, headers = [], body = Empty\<rparr>)
       \<and> app Number bs (PUT_book i req_body) = (bs, \<lparr>status = 404, headers = [], body = Empty\<rparr>)
       \<and> app Number bs (DELETE_book i) = (bs, \<lparr>status = 404, headers = [], body = Empty\<rparr>)"
proof -
  have "findIndex (\<lambda>b. strict_equals (book_id b) (Number i)) bs = - 1"
    using assms by (simp add: findIndex_none)
  then show ?thesis
    by (simp add: get_book_eq put_book_def delete_book_def Let_def send_empty_def)
qed

text \<open>Claim C9 at the initial array, with the path id \<^verbatim>\<open>abc\<close>.\<close>

theorem unparsable_id_is_not_found_witness:
  "decimal_Number ''abc'' = NaN
   \<and> app decimal_Number books (GET_book ''abc'') = (books, \<lparr>status = 404, headers = [], body = Empty\<rparr>)
   \<and> app decimal_Number books (PUT_book ''abc'' [''title'' \<mapsto> String ''X'']) =
       (books, \<lparr>status = 404, headers = [], body = Empty\<rparr>)
   \<and> app decimal_Number books (DELETE_book ''abc'') = (books, \<lparr>status = 404, headers = [], body = Empty\<rparr>)"
proof -
  have h: "decimal_Number ''abc'' = NaN"
    by (simp add: decimal_Number_def is_digit_def)
  from h unparsable_id_is_not_found [of decimal_Number "''abc''" books, OF h] show ?thesis
    by simp
qed

text \<open>
  Claim C10. Whenever a request is answered with 404, the array after it is the array
  before it.
\<close>

theorem not_found_leaves_store_unchanged:
  "status (snd (app Number bs r)) = 404 \<Longrightarrow> fst (app Number bs r) = bs"
  using not_found_response [of Number bs r] by simp

text \<open>Claim C10 at the initial array, with \<^verbatim>\<open>DELETE /books/999\<close>.\<close>

theorem not_found_leaves_store_unchanged_witness:
  "status (snd (app decimal_Number books (DELETE_book ''999''))) = 404
   \<and> fst (app decimal_Number books (DELETE_book ''999'')) = books"
proof -
  have n: "decimal_Number ''999'' = Num 999"
    by (simp add: decimal_Number_def is_digit_def digit_value_def)
  have h: "status (snd (app decimal_Number books (DELETE_book ''999''))) = 404"
    by (simp add: n books_def delete_book_def send_empty_def)
  from h not_found_leaves_store_unchanged [OF h] show ?thesis
    by simp
qed

section \<open>Ids after a deletion\<close>

text \<open>
  Claim C4, as the program has it. From the initial array, \<^verbatim>\<open>DELETE /books/2\<close> removes
  the record with the maximum id 2, and the next \<^verbatim>\<open>POST /books\<close> assigns id 2 again.
\<close>

theorem deleted_max_id_is_reused_counterexample:
  "app decimal_Number books (DELETE_book ''2'') =
     ([\<lparr>book_id = Num 1, title = String ''Book1'', author = String ''Author1''\<rparr>],
      \<lparr>status = 204, headers = [], body = Empty\<rparr>)
   \<and> app decimal_Number
        [\<lparr>book_id = Num 1, title = String ''Book1'', author = String ''Author1''\<rparr>]
        (POST_books [''title'' \<mapsto> String ''Book3'', ''author'' \<mapsto> String ''Author3'']) =
     ([\<lparr>book_id = Num 1, title = String ''Book1'', author = String ''Author1''\<rparr>,
       \<lparr>book_id = Num 2, title = String ''Book3'', author = String ''Author3''\<rparr>],
      \<lparr>status = 201, headers = [],
       body = Item \<lparr>book_id = Num 2, title = String ''Book3'', author = String ''Author3''\<rparr>
                [(''self'', ''/books/2'')]\<rparr>)"
  by (simp add: decimal_Number_def is_digit_def digit_value_def books_def delete_book_def
      splice1_def send_empty_def post_books_def newId_def Let_def json_def property_def
      digits.simps digit_def)

lemma newId_above_all:
  assumes "ascending (map book_id bs)" "b \<in> set bs"
  shows "less_than (book_id b) (newId bs)"
proof -
  from assms(2) have ne: "bs \<noteq> []" and m: "book_id b \<in> set (map book_id bs)" by auto
  from ascending_below_last [OF assms(1) m] ne show ?thesis
    by (simp add: newId_eq last_map)
qed

lemma less_than_trans: "less_than a b \<Longrightarrow> less_than b c \<Longrightarrow> less_than a c"
  by (auto simp: less_than_iff)

lemma less_than_irrefl: "\<not> less_than a a"
  by (simp add: less_than_iff)

text \<open>
  Claim C4, amended. After \<^verbatim>\<open>DELETE /books/:id\<close> has removed a record in a reachable
  state, and after any further requests, \<^verbatim>\<open>POST /books\<close> assigns an id greater than
  the deleted one, hence another one, whenever some record of the array at that moment
  has an id greater than the deleted one.
\<close>

theorem deleted_id_not_reused_below_larger_id:
  assumes "status (snd (app Number (run Number books before) (DELETE_book i))) = 204"
    and "\<exists>b\<in>set (run Number books (before @ DELETE_book i # after)). less_than (Number i) (book_id b)"
  shows "\<exists>nb. app Number (run Number books (before @ DELETE_book i # after)) (POST_books req_body) =
                (run Number books (before @ DELETE_book i # after) @ [nb],
                 \<lparr>status = 201, headers = [],
                  body = Item nb [(''self'', ''/books/'' @ number_to_string (book_id nb))]\<rparr>)
              \<and> less_than (Number i) (book_id nb) \<and> book_id nb \<noteq> Number i"
proof -
  let ?s = "run Number books (before @ DELETE_book i # after)"
  have asc: "ascending (map book_id ?s)"
    by (rule ascending_run [OF ascending_books])
  from assms(2) obtain b where b: "b \<in> set ?s" "less_than (Number i) (book_id b)" by blast
  from less_than_trans [OF b(2) newId_above_all [OF asc b(1)]]
  have lt: "less_than (Number i) (newId ?s)" .
  then have "newId ?s \<noteq> Number i" using less_than_irrefl [of "Number i"] by auto
  with lt show ?thesis by (simp add: post_books_eq)
qed

text \<open>
  Claim C4, amended, at the initial array: after \<^verbatim>\<open>DELETE /books/1\<close> the record with
  id 2 remains, and the next record gets id 3.
\<close>

theorem deleted_id_not_reused_below_larger_id_witness:
  "status (snd (app decimal_Number (run decimal_Number books []) (DELETE_book ''1''))) = 204
   \<and> (\<exists>b\<in>set (run decimal_Number books ([] @ DELETE_book ''1'' # [])).
         less_than (decimal_Number ''1'') (book_id b))
   \<and> app decimal_Number (run decimal_Number books ([] @ DELETE_book ''1'' # []))
        (POST_books [''title'' \<mapsto> String ''Book3'', ''author'' \<mapsto> String ''Author3'']) =
       ([\<lparr>book_id = Num 2, title = String ''Book2'', author = String ''Author2''\<rparr>,
         \<lparr>book_id = Num 3, title = String ''Book3'', author = String ''Author3''\<rparr>],
        \<lparr>status = 201, headers = [],
         body = Item \<lparr>book_id = Num 3, title = String ''Book3'', author = String ''Author3''\<rparr>
                  [(''self'', ''/books/3'')]\<rparr>)"
proof -
  have n1: "decimal_Number ''1'' = Num 1"
    by (simp add: decimal_Number_def is_digit_def digit_value_def)
  have s: "run decimal_Number books ([] @ DELETE_book ''1'' # []) =
      [\<lparr>book_id = Num 2, title = String ''Book2'', author = String ''Author2''\<rparr>]"
    by (simp add: n1 books_def delete_book_def splice1_def)
  have h1: "status (snd (app decimal_Number (run decimal_Number books []) (DELETE_book ''1''))) = 204"
    by (simp add: n1 books_def delete_book_def send_empty_def)
  have h2: "\<exists>b\<in>set (run decimal_Number books ([] @ DELETE_book ''1'' # [])).
         less_than (decimal_Number ''1'') (book_id b)"
    unfolding s by (simp add: n1)
  from h1 h2 deleted_id_not_reused_below_larger_id [where Number = decimal_Number
      and before = "[]" and after = "[]" and i = "''1''", OF h1 h2]
  show ?thesis
    unfolding s
    by (simp add: post_books_def newId_def Let_def json_def property_def digits.simps digit_def)
qed

end
